theory Spec2Isabelle
  imports Main "HOL-Library.Sublist"
begin

section \<open>Values exchanged with the mail API\<close>

text \<open>
  Both scripts work on what \<^verbatim>\<open>requests\<close> decodes from JSON: dictionaries with string
  keys whose values are null, booleans, numbers, strings, arrays or objects. Python's
  \<^verbatim>\<open>None\<close> is \<open>JNull\<close>. A Python \<^verbatim>\<open>str\<close> is an Isabelle \<open>string\<close>; numbers are
  integers, since the code only ever tests a number for being zero.
\<close>

datatype json =
    JNull
  | JBool bool
  | JNum int
  | JStr string
  | JArr "json list"
  | JObj "(string \<times> json) list"

type_synonym dict = "string \<rightharpoonup> json"

text \<open>Exceptions are values; each carries the text of its message.\<close>

datatype error =
    AttributeError string
  | KeyError string
  | TypeError string
  | ValueError string
  | RuntimeError string
  | FileNotFoundError string
  | LibraryError string

text \<open>Python's truth value of an object: what \<^verbatim>\<open>bool(x)\<close>, \<^verbatim>\<open>if x\<close> and \<^verbatim>\<open>x or y\<close> test.\<close>

fun truthy :: "json \<Rightarrow> bool" where
  "truthy JNull = False"
| "truthy (JBool b) = b"
| "truthy (JNum n) = (n \<noteq> 0)"
| "truthy (JStr s) = (s \<noteq> [])"
| "truthy (JArr xs) = (xs \<noteq> [])"
| "truthy (JObj kvs) = (kvs \<noteq> [])"

text \<open>\<^verbatim>\<open>d.get(k)\<close>: the value stored under \<open>k\<close>, or \<^verbatim>\<open>None\<close>.\<close>

definition get :: "dict \<Rightarrow> string \<Rightarrow> json" where
  "get d k = (case d k of None \<Rightarrow> JNull | Some v \<Rightarrow> v)"

text \<open>\<^verbatim>\<open>x or y\<close>.\<close>

definition py_or :: "json \<Rightarrow> json \<Rightarrow> json" where
  "py_or x y = (if truthy x then x else y)"

text \<open>
  \<^verbatim>\<open>str.lower\<close> on the ASCII capitals; every other character is left as it is.
\<close>

definition lower_char :: "char \<Rightarrow> char" where
  "lower_char c =
     (let n = (of_char c :: nat) in if 65 \<le> n \<and> n \<le> 90 then char_of (n + 32) else c)"

definition lower :: "string \<Rightarrow> string" where
  "lower s = map lower_char s"

text \<open>\<^verbatim>\<open>x.lower()\<close> on an arbitrary value: only a \<^verbatim>\<open>str\<close> has the method.\<close>

fun call_lower :: "json \<Rightarrow> error + string" where
  "call_lower (JStr s) = Inr (lower s)"
| "call_lower _ = Inl (AttributeError ''lower'')"

section \<open>Classification (graph\_demo.py, \<^verbatim>\<open>_classify\<close>)\<close>

text \<open>
  \<^verbatim>\<open>k in subject\<close> on strings is \<open>sublist k subject\<close>: \<open>k\<close> occurs as a contiguous
  block.
\<close>

definition FILED_KEYWORDS :: "string list" where
  "FILED_KEYWORDS = [''quote'', ''policy'', ''binder'', ''endorsement'']"

definition classify :: "dict \<Rightarrow> error + string" where
  "classify msg =
     (case call_lower (py_or (get msg ''subject'') (JStr '''')) of
        Inl e \<Rightarrow> Inl e
      | Inr subject \<Rightarrow>
          (let has_attach = truthy (get msg ''hasAttachments'') in
           if list_ex (\<lambda>k. sublist k subject) FILED_KEYWORDS then Inr ''filed''
           else if has_attach \<or> sublist ''claim'' subject then Inr ''triage''
           else Inr ''skipped''))"

text \<open>Sequencing: the first exception ends the computation.\<close>

definition and_then ::
  "error + 'a \<Rightarrow> ('a \<Rightarrow> error + 'b) \<Rightarrow> error + 'b" where
  "and_then m f = (case m of Inl e \<Rightarrow> Inl e | Inr x \<Rightarrow> f x)"

section \<open>Text helpers\<close>

text \<open>The apostrophe, and the decimal text of an integer as \<^verbatim>\<open>str\<close> and f-strings give it.\<close>

definition SQ :: char where
  "SQ = CHR 0x27"

definition DIGITS :: string where
  "DIGITS = ''0123456789''"

fun str_nat :: "nat \<Rightarrow> string" where
  "str_nat n =
     (if n < 10 then [DIGITS ! n] else str_nat (n div 10) @ [DIGITS ! (n mod 10)])"

declare str_nat.simps [simp del]

definition str_int :: "int \<Rightarrow> string" where
  "str_int i = (if i < 0 then ''-'' @ str_nat (nat (- i)) else str_nat (nat i))"

text \<open>
  \<^verbatim>\<open>s.replace(old, new)\<close>: the occurrences of \<open>old\<close> are found from the left and do not
  overlap. With an empty \<open>old\<close>, \<open>new\<close> goes before every character and at the end.
\<close>

fun replace_ne :: "string \<Rightarrow> string \<Rightarrow> string \<Rightarrow> string" where
  "replace_ne old new [] = []"
| "replace_ne old new (c # cs) =
     (if old \<noteq> [] \<and> prefix old (c # cs)
      then new @ replace_ne old new (drop (length old - 1) cs)
      else c # replace_ne old new cs)"

definition replace :: "string \<Rightarrow> string \<Rightarrow> string \<Rightarrow> string" where
  "replace old new s =
     (if old = [] then new @ concat (map (\<lambda>c. c # new) s) else replace_ne old new s)"

section \<open>The remote API and the console\<close>

text \<open>
  A request as \<^verbatim>\<open>requests.get\<close> and \<^verbatim>\<open>requests.post\<close> receive it, and the part of the
  response the scripts read: \<open>rtext\<close> is \<^verbatim>\<open>r.text\<close>, and \<open>rjson\<close> is what \<^verbatim>\<open>r.json()\<close>
  does, which raises when the body is not JSON. A call of \<^verbatim>\<open>requests\<close> either returns a
  response or raises (no connection, a timeout); what happens may depend on the requests
  made before. The world records the requests made and the lines printed.
\<close>

record request =
  meth :: string
  url :: string
  headers :: "(string \<times> string) list"
  params :: "(string \<times> json) list"
  payload :: "json option"

record response =
  ok :: bool
  status_code :: int
  rtext :: string
  rjson :: "error + json"

type_synonym remote = "request list \<Rightarrow> request \<Rightarrow> error + response"

record world =
  sent :: "request list"
  out :: "string list"

definition send ::
  "remote \<Rightarrow> request \<Rightarrow> world \<Rightarrow> (error + response) \<times> world" where
  "send api req w = (api (sent w) req, w\<lparr>sent := sent w @ [req]\<rparr>)"

definition print :: "string \<Rightarrow> world \<Rightarrow> world" where
  "print line w = w\<lparr>out := out w @ [line]\<rparr>"

definition GRAPH :: string where
  "GRAPH = ''https://graph.microsoft.com/v1.0''"

definition DEMO_FOLDER_NAME :: string where
  "DEMO_FOLDER_NAME = ''DEMO for PNC''"

text \<open>
  Operations on a decoded value: \<^verbatim>\<open>x.get(k, default)\<close>, \<^verbatim>\<open>x[0]\<close> and \<^verbatim>\<open>x[k]\<close> for a string
  key. The pairs of a \<open>JObj\<close> are the items of the dictionary, each key once.
\<close>

fun get_default :: "json \<Rightarrow> string \<Rightarrow> json \<Rightarrow> error + json" where
  "get_default (JObj kvs) k d = Inr (case map_of kvs k of None \<Rightarrow> d | Some v \<Rightarrow> v)"
| "get_default _ k d = Inl (AttributeError ''get'')"

fun index0 :: "json \<Rightarrow> error + json" where
  "index0 (JArr []) = Inl (LibraryError ''IndexError'')"
| "index0 (JArr (v # vs)) = Inr v"
| "index0 (JStr []) = Inl (LibraryError ''IndexError'')"
| "index0 (JStr (c # cs)) = Inr (JStr [c])"
| "index0 (JObj kvs) = Inl (KeyError ''0'')"
| "index0 _ = Inl (TypeError ''not subscriptable'')"

fun item :: "json \<Rightarrow> string \<Rightarrow> error + json" where
  "item (JObj kvs) k = (case map_of kvs k of None \<Rightarrow> Inl (KeyError k) | Some v \<Rightarrow> Inr v)"
| "item _ k = Inl (TypeError ''index'')"

text \<open>\<^verbatim>\<open>vals[0]["id"] if vals else None\<close>\<close>

definition first_id :: "json \<Rightarrow> error + json" where
  "first_id vals =
     (if truthy vals
      then (case index0 vals of Inl e \<Rightarrow> Inl e | Inr v \<Rightarrow> item v ''id'')
      else Inr JNull)"

section \<open>Folder lookup\<close>

subsection \<open>graph\_demo.py: \<^verbatim>\<open>_graph_get\<close> and \<^verbatim>\<open>_find_mail_folder_id\<close>\<close>

definition graph_get ::
  "remote \<Rightarrow> string \<Rightarrow> (string \<times> string) list \<Rightarrow> (string \<times> json) list \<Rightarrow> world
     \<Rightarrow> (error + json) \<times> world" where
  "graph_get api path hdrs ps w =
     (case send api \<lparr>meth = ''GET'', url = GRAPH @ path, headers = hdrs,
                      params = ps, payload = None\<rparr> w of
        (Inl e, w') \<Rightarrow> (Inl e, w')
      | (Inr r, w') \<Rightarrow>
          if \<not> ok r
          then (Inl (RuntimeError (''GET '' @ path @ '' failed ('' @ str_int (status_code r)
                                    @ ''): '' @ rtext r)), w')
          else (rjson r, w'))"

definition folder_filter :: "string \<Rightarrow> (string \<times> json) list" where
  "folder_filter safe =
     [(''$filter'', JStr (''displayName eq '' @ [SQ] @ safe @ [SQ])), (''$top'', JNum 10)]"

definition graph_find_mail_folder_id ::
  "remote \<Rightarrow> (string \<times> string) list \<Rightarrow> string \<Rightarrow> world \<Rightarrow> (error + json) \<times> world" where
  "graph_find_mail_folder_id api hdrs display_name w =
     (let safe = replace [SQ] [SQ, SQ] display_name in
      case graph_get api ''/me/mailFolders'' hdrs (folder_filter safe) w of
        (Inl e, w') \<Rightarrow> (Inl e, w')
      | (Inr data, w') \<Rightarrow>
          (case get_default data ''value'' (JArr []) of
             Inl e \<Rightarrow> (Inl e, w')
           | Inr vals \<Rightarrow> (first_id vals, w')))"

subsection \<open>create\_test\_emails.py: \<^verbatim>\<open>find_mail_folder_id\<close>\<close>

text \<open>
  This file is stored with typographic quotation marks outside its fenced blocks; they are
  read as the plain quote characters of Python, so that the pattern replaced is the
  apostrophe, as in the other script.
\<close>

definition find_mail_folder_id ::
  "remote \<Rightarrow> (string \<times> string) list \<Rightarrow> string \<Rightarrow> world \<Rightarrow> (error + json) \<times> world" where
  "find_mail_folder_id api hdrs display_name w =
     (let safe = replace [SQ] [SQ, SQ] display_name in
      case send api \<lparr>meth = ''GET'', url = GRAPH @ ''/me/mailFolders'', headers = hdrs,
                      params = folder_filter safe, payload = None\<rparr> w of
        (Inl e, w') \<Rightarrow> (Inl e, w')
      | (Inr r, w') \<Rightarrow>
          if \<not> ok r then (Inl (RuntimeError (''Failed to find folder: '' @ rtext r)), w')
          else (case and_then (rjson r) (\<lambda>data. get_default data ''value'' (JArr [])) of
                  Inl e \<Rightarrow> (Inl e, w')
                | Inr vals \<Rightarrow> (first_id vals, w')))"

section \<open>Seeding test messages (create\_test\_emails.py)\<close>




fun fmt :: "string option \<Rightarrow> string" where
  "fmt None = ''None''"
| "fmt (Some s) = s"











section \<open>Dates and times\<close>

text \<open>
  A \<^verbatim>\<open>datetime\<close> of the standard library: the calendar fields and, when the value is
  aware, the offset of its time zone from UTC in microseconds. \<open>pad\<close> writes a number
  with leading zeros, as the \<^verbatim>\<open>strftime\<close> directives \<^verbatim>\<open>%Y %m %d %H %M %S\<close> are documented
  to do.
\<close>

record datetime =
  year :: nat
  month :: nat
  day :: nat
  hour :: nat
  minute :: nat
  second :: nat
  microsecond :: nat
  utcoffset :: "int option"

definition pad :: "nat \<Rightarrow> nat \<Rightarrow> string" where
  "pad k n = replicate (k - length (str_nat n)) (CHR ''0'') @ str_nat n"

text \<open>\<^verbatim>\<open>dt.strftime("%Y-%m-%d %H:%M:%S UTC")\<close> and \<^verbatim>\<open>dt.strftime("%Y-%m-%d %H:%M UTC")\<close>\<close>

definition strftime_run_time :: "datetime \<Rightarrow> string" where
  "strftime_run_time dt =
     pad 4 (year dt) @ ''-'' @ pad 2 (month dt) @ ''-'' @ pad 2 (day dt) @ '' ''
     @ pad 2 (hour dt) @ '':'' @ pad 2 (minute dt) @ '':'' @ pad 2 (second dt) @ '' UTC''"














subsection \<open>graph\_demo.py: \<^verbatim>\<open>_iso_to_display\<close>\<close>



section \<open>The dashboard (graph\_demo.py, \<^verbatim>\<open>render_tailwind_dashboard\<close>)\<close>

text \<open>
  \<^verbatim>\<open>html.escape(s)\<close> of the standard library, with its default \<^verbatim>\<open>quote=True\<close>: five
  replacements one after the other, the ampersand first. Only a \<^verbatim>\<open>str\<close> has
  \<^verbatim>\<open>replace\<close>.
\<close>

definition html_escape :: "string \<Rightarrow> string" where
  "html_escape s =
     replace [SQ] ''&#x27;''
       (replace [CHR 0x22] ''&quot;''
         (replace ''>'' ''&gt;''
           (replace ''<'' ''&lt;''
             (replace ''&'' ''&amp;'' s))))"

fun call_html_escape :: "json \<Rightarrow> error + string" where
  "call_html_escape (JStr s) = Inr (html_escape s)"
| "call_html_escape _ = Inl (AttributeError ''replace'')"

text \<open>\<^verbatim>\<open>d[k]\<close> and \<^verbatim>\<open>d.get(k, default)\<close> on a dictionary.\<close>

definition dict_item :: "dict \<Rightarrow> string \<Rightarrow> error + json" where
  "dict_item d k = (case d k of None \<Rightarrow> Inl (KeyError k) | Some v \<Rightarrow> Inr v)"

definition get_or :: "dict \<Rightarrow> string \<Rightarrow> json \<Rightarrow> json" where
  "get_or d k v = (case d k of None \<Rightarrow> v | Some x \<Rightarrow> x)"

text \<open>
  The lookup in \<^verbatim>\<open>{"filed": "Filed", "triage": "Triage", "skipped": "Skipped"}\<close>: a list or
  a dictionary cannot be a key at all, any other absent key is a \<^verbatim>\<open>KeyError\<close>.
\<close>

fun status_label :: "json \<Rightarrow> error + string" where
  "status_label (JStr s) =
     (if s = ''filed'' then Inr ''Filed''
      else if s = ''triage'' then Inr ''Triage''
      else if s = ''skipped'' then Inr ''Skipped''
      else Inl (KeyError s))"
| "status_label (JArr xs) = Inl (TypeError ''unhashable'')"
| "status_label (JObj kvs) = Inl (TypeError ''unhashable'')"
| "status_label _ = Inl (KeyError ''status'')"

text \<open>The markup of one table row around its four texts.\<close>

definition table_row :: "string \<Rightarrow> string \<Rightarrow> string \<Rightarrow> string \<Rightarrow> string" where
  "table_row label subject filed_dir timestamp =
     ''<tr>''
     @ ''<td class='p-4'><span class='status-badge inline-block px-2 py-1 rounded-full text-xs bg-gray-100'>''
     @ label @ ''</span></td>''
     @ ''<td class='p-4'>'' @ subject @ ''</td>''
     @ ''<td class='p-4'>'' @ filed_dir @ ''</td>''
     @ ''<td class='p-4'>'' @ timestamp @ ''</td>''
     @ ''</tr>''"

definition row_html :: "string \<Rightarrow> dict \<Rightarrow> error + string" where
  "row_html folder_display m =
     and_then (dict_item m ''status'') (\<lambda>status.
     and_then (status_label status) (\<lambda>label.
     and_then (call_html_escape (get_or m ''subject'' (JStr ''''))) (\<lambda>subject.
     and_then (call_html_escape (get_or m ''filed_dir'' (JStr folder_display))) (\<lambda>filed_dir.
     and_then (call_html_escape (get_or m ''timestamp'' (JStr ''''))) (\<lambda>timestamp.
       Inr (table_row (html_escape label) subject filed_dir timestamp))))))"

text \<open>The loop that fills \<^verbatim>\<open>rows_html\<close>; the first exception ends it.\<close>

fun rows_html :: "string \<Rightarrow> dict list \<Rightarrow> error + string list" where
  "rows_html folder_display [] = Inr []"
| "rows_html folder_display (m # ms) =
     and_then (row_html folder_display m) (\<lambda>r.
     and_then (rows_html folder_display ms) (\<lambda>rs. Inr (r # rs)))"

text \<open>\<^verbatim>\<open>sep.join(parts)\<close>\<close>

fun join :: "string \<Rightarrow> string list \<Rightarrow> string" where
  "join sep [] = []"
| "join sep [p] = p"
| "join sep (p # q # ps) = p @ sep @ join sep (q # ps)"

definition NO_EMAILS :: string where
  "NO_EMAILS =
     ''<tr><td colspan='4' class='text-center text-gray-500 py-4'>No emails were processed.</td></tr>''"

definition rows_block :: "string \<Rightarrow> dict list \<Rightarrow> error + string" where
  "rows_block folder_display messages =
     and_then (rows_html folder_display messages) (\<lambda>rs.
       Inr (if rs = [] then NO_EMAILS else join [CHR 0x0A] rs))"

text \<open>
  The renderer gets the path of the template, its content when the file exists, and the
  clock's reading. Its result is the text written to the output file.
\<close>

definition render_tailwind_dashboard ::
  "string \<Rightarrow> string option \<Rightarrow> datetime \<Rightarrow> dict list \<Rightarrow> string \<Rightarrow> error + string" where
  "render_tailwind_dashboard template_file template now messages folder_display =
     (case template of
        None \<Rightarrow> Inl (FileNotFoundError (''Template not found: '' @ template_file))
      | Some tpl \<Rightarrow>
          and_then (rows_block folder_display messages) (\<lambda>block.
            Inr (replace ''<!-- REPORT_DATA -->'' block
                   (replace ''{RUN_TIME}'' (strftime_run_time now) tpl))))"

section \<open>Token acquisition\<close>

text \<open>
  What the scripts use of \<^verbatim>\<open>msal\<close>. An application object, made for one authority, has
  its cached accounts, and answers the three calls: a caught exception is the text of its
  message, a dictionary has strings under its keys, and \<^verbatim>\<open>acquire_token_silent\<close> may also
  return \<^verbatim>\<open>None\<close>. Constructing the object and listing the accounts always return.
\<close>

type_synonym token_dict = "string \<rightharpoonup> string"

record app =
  get_accounts :: "string list"
  acquire_token_silent :: "string \<Rightarrow> string + token_dict option"
  initiate_device_flow :: "string + token_dict"
  acquire_token_by_device_flow :: "token_dict \<Rightarrow> error + token_dict"

type_synonym msal = "string \<Rightarrow> app"

definition AUTHORITIES :: "string list" where
  "AUTHORITIES = [''https://login.microsoftonline.com/consumers'',
                  ''https://login.microsoftonline.com/common'']"

definition EM_DASH :: string where
  "EM_DASH = [CHR 0xE2, CHR 0x80, CHR 0x94]"

text \<open>\<^verbatim>\<open>x or default\<close> on a string that may be \<^verbatim>\<open>None\<close>.\<close>

fun or_text :: "string option \<Rightarrow> string \<Rightarrow> string" where
  "or_text None d = d"
| "or_text (Some s) d = (if s = [] then d else s)"

text \<open>
  One turn of the loop over the authorities, the same text in both scripts. It ends in a
  \<^verbatim>\<open>return\<close> of the token, in an exception that nothing catches, or it goes on to the next
  authority with a new value of \<^verbatim>\<open>last_error_detail\<close>.
\<close>

datatype attempt = Token string | Raise error | Next string

definition silent :: "app \<Rightarrow> world \<Rightarrow> string option \<times> world" where
  "silent a w =
     (case get_accounts a of
        [] \<Rightarrow> (None, w)
      | account # others \<Rightarrow>
          (case acquire_token_silent a account of
             Inl e \<Rightarrow> (None, print (''Silent token attempt failed: '' @ e) w)
           | Inr None \<Rightarrow> (None, w)
           | Inr (Some result) \<Rightarrow>
               (case result ''access_token'' of
                  None \<Rightarrow> (None, w)
                | Some token \<Rightarrow> (Some token, print ''Got cached token.'' w))))"

definition device_flow :: "app \<Rightarrow> world \<Rightarrow> attempt \<times> world" where
  "device_flow a w =
     (case initiate_device_flow a of
        Inl e \<Rightarrow>
          (Next (''initiate_device_flow exception: '' @ e),
           print (''Device flow init error: '' @ e) w)
      | Inr flow \<Rightarrow>
          if flow ''user_code'' = None
          then (let err = or_text (flow ''error'') ''unknown_error'';
                    desc = or_text (flow ''error_description'') ''No description'' in
                (Next (err @ '': '' @ desc),
                 print (''Device flow init response error '' @ EM_DASH @ '' '' @ err @ '': '' @ desc) w))
          else (case flow ''message'' of
                  None \<Rightarrow> (Raise (KeyError ''message''), w)
                | Some message \<Rightarrow>
                    (case acquire_token_by_device_flow a flow of
                       Inl e \<Rightarrow> (Raise e, print message w)
                     | Inr result \<Rightarrow>
                         (case result ''access_token'' of
                            Some token \<Rightarrow> (Token token, print ''Token acquired.'' (print message w))
                          | None \<Rightarrow>
                              (let err = fmt (result ''error'');
                                   desc = fmt (result ''error_description'') in
                               (Next (err @ '': '' @ desc),
                                print (''Device flow acquisition failed '' @ EM_DASH @ '' ''
                                         @ err @ '': '' @ desc)
                                  (print message w)))))))"

definition try_authority :: "msal \<Rightarrow> string \<Rightarrow> world \<Rightarrow> attempt \<times> world" where
  "try_authority lib authority w =
     (case silent (lib authority) (print (''Trying authority: '' @ authority) w) of
        (Some token, w') \<Rightarrow> (Token token, w')
      | (None, w') \<Rightarrow> device_flow (lib authority) w')"

subsection \<open>graph\_demo.py: \<^verbatim>\<open>acquire_token_with_diagnostics\<close>\<close>

definition LF :: string where
  "LF = [CHR 0x0A]"

definition failure_message :: "string option \<Rightarrow> string" where
  "failure_message last_error_detail =
     ''Failed to create/complete device flow. ''
     @ ''Details: '' @ or_text last_error_detail ''no additional info'' @ LF @ LF
     @ ''Fix checklist:'' @ LF
     @ ''  1) Azure App Registration > Authentication: 'Allow public client flows' = Yes'' @ LF
     @ ''  2) Supported account types include Personal Microsoft accounts (MSA)'' @ LF
     @ ''  3) CLIENT_ID matches the configured app'' @ LF
     @ ''  4) SCOPES are delegated Graph scopes only: ['User.Read', 'Mail.ReadWrite']''"

fun acquire_from :: "msal \<Rightarrow> string list \<Rightarrow> string option \<Rightarrow> world \<Rightarrow> (error + string) \<times> world" where
  "acquire_from lib [] last_error_detail w =
     (Inl (RuntimeError (failure_message last_error_detail)), w)"
| "acquire_from lib (authority # rest) last_error_detail w =
     (case try_authority lib authority w of
        (Token token, w') \<Rightarrow> (Inr token, w')
      | (Raise e, w') \<Rightarrow> (Inl e, w')
      | (Next detail, w') \<Rightarrow> acquire_from lib rest (Some detail) w')"

definition acquire_token_with_diagnostics :: "msal \<Rightarrow> world \<Rightarrow> (error + string) \<times> world" where
  "acquire_token_with_diagnostics lib w = acquire_from lib AUTHORITIES None w"

subsection \<open>create\_test\_emails.py: \<^verbatim>\<open>acquire_token_with_diagnostics\<close>\<close>

fun seeder_acquire_from ::
  "msal \<Rightarrow> string list \<Rightarrow> string option \<Rightarrow> world \<Rightarrow> (error + string) \<times> world" where
  "seeder_acquire_from lib [] last_error_detail w =
     (Inl (RuntimeError (''Failed to acquire token. Details: '' @ fmt last_error_detail)), w)"
| "seeder_acquire_from lib (authority # rest) last_error_detail w =
     (case try_authority lib authority w of
        (Token token, w') \<Rightarrow> (Inr token, w')
      | (Raise e, w') \<Rightarrow> (Inl e, w')
      | (Next detail, w') \<Rightarrow> seeder_acquire_from lib rest (Some detail) w')"

definition seeder_acquire_token_with_diagnostics ::
  "msal \<Rightarrow> world \<Rightarrow> (error + string) \<times> world" where
  "seeder_acquire_token_with_diagnostics lib w = seeder_acquire_from lib AUTHORITIES None w"

section \<open>Notions used in the statements\<close>

text \<open>The request both folder lookups send.\<close>

definition folder_request :: "(string \<times> string) list \<Rightarrow> string \<Rightarrow> request" where
  "folder_request hdrs name =
     \<lparr>meth = ''GET'', url = GRAPH @ ''/me/mailFolders'', headers = hdrs,
      params = folder_filter (replace [SQ] [SQ, SQ] name), payload = None\<rparr>"








text \<open>
  What \<^verbatim>\<open>html.escape\<close> does to one character, and the row the renderer produces for a
  message whose fields are strings. \<open>tags_fixed\<close> holds of a text in which every \<open><\<close>
  opens one of the tags of the row markup.
\<close>

definition escape_char :: "char \<Rightarrow> string" where
  "escape_char c =
     (if c = CHR ''&'' then ''&amp;''
      else if c = CHR ''<'' then ''&lt;''
      else if c = CHR ''>'' then ''&gt;''
      else if c = CHR 0x22 then ''&quot;''
      else if c = SQ then ''&#x27;''
      else [c])"

definition escaped :: "string \<Rightarrow> string" where
  "escaped s = concat (map escape_char s)"

fun text_of :: "json \<Rightarrow> string" where
  "text_of (JStr s) = s"
| "text_of _ = []"

definition label_of :: "dict \<Rightarrow> string" where
  "label_of m = (case status_label (get m ''status'') of Inl e \<Rightarrow> [] | Inr l \<Rightarrow> l)"

definition rendered_row :: "string \<Rightarrow> dict \<Rightarrow> string" where
  "rendered_row folder_display m =
     table_row (escaped (label_of m))
       (escaped (text_of (get_or m ''subject'' (JStr ''''))))
       (escaped (text_of (get_or m ''filed_dir'' (JStr folder_display))))
       (escaped (text_of (get_or m ''timestamp'' (JStr ''''))))"

fun tag_start :: "string \<Rightarrow> bool" where
  "tag_start (d # e # r) = (d = CHR ''t'' \<or> d = CHR ''/'' \<or> (d = CHR ''s'' \<and> e = CHR ''p''))"
| "tag_start _ = False"

fun tags_fixed :: "string \<Rightarrow> bool" where
  "tags_fixed [] = True"
| "tags_fixed (c # cs) = ((c = CHR ''<'' \<longrightarrow> tag_start cs) \<and> tags_fixed cs)"

text \<open>
  \<^verbatim>\<open>s.split(old)\<close> for a non-empty \<open>old\<close>: the pieces of \<open>s\<close> between the occurrences
  that \<open>replace\<close> finds.
\<close>

fun split_on :: "string \<Rightarrow> string \<Rightarrow> string list" where
  "split_on old [] = [[]]"
| "split_on old (c # cs) =
     (if old \<noteq> [] \<and> prefix old (c # cs)
      then [] # split_on old (drop (length old - 1) cs)
      else (case split_on old cs of [] \<Rightarrow> [[c]] | p # ps \<Rightarrow> (c # p) # ps))"

text \<open>A text that no occurrence of \<open>old\<close> can reach into.\<close>

definition inert :: "string \<Rightarrow> string \<Rightarrow> bool" where
  "inert old t \<longleftrightarrow> old \<noteq> [] \<and> t \<noteq> [] \<and> hd t \<notin> set old \<and> last t \<notin> set old
                   \<and> hd old \<notin> set t"

definition is_digit :: "char \<Rightarrow> bool" where
  "is_digit c \<longleftrightarrow> c \<in> set DIGITS"

text \<open>An \<^verbatim>\<open>msal\<close> whose device flow is refused at every authority.\<close>

definition refusing_app :: app where
  "refusing_app =
     \<lparr>get_accounts = [],
      acquire_token_silent = (\<lambda>account. Inr None),
      initiate_device_flow =
        Inr [''error'' \<mapsto> ''invalid_client'', ''error_description'' \<mapsto> ''not a public client''],
      acquire_token_by_device_flow = (\<lambda>flow. Inr Map.empty)\<rparr>"
















section \<open>Properties of the classifier\<close>

lemma lower_Nil [simp]: "lower [] = []"
  by (simp add: lower_def)

lemma subject_lowered:
  "msg ''subject'' = Some (JStr s) \<Longrightarrow>
   call_lower (py_or (get msg ''subject'') (JStr '''')) = Inr (lower s)"
  by (cases "s = []") (simp_all add: get_def py_or_def)

lemma subject_absent:
  "msg ''subject'' = None \<or> msg ''subject'' = Some JNull \<Longrightarrow>
   call_lower (py_or (get msg ''subject'') (JStr '''')) = Inr (lower '''')"
  by (auto simp: get_def py_or_def)

text \<open>
  C1. A message whose lower-cased subject contains \<open>quote\<close>, \<open>policy\<close>, \<open>binder\<close> or
  \<open>endorsement\<close> is classified \<open>filed\<close>, whatever its attachment flag and whether or not
  the subject also contains \<open>claim\<close>.
\<close>

theorem classify_filed_priority:
  assumes "msg ''subject'' = Some (JStr s)"
    and "sublist ''quote'' (lower s) \<or> sublist ''policy'' (lower s)
         \<or> sublist ''binder'' (lower s) \<or> sublist ''endorsement'' (lower s)"
  shows "classify msg = Inr ''filed''"
proof -
  have "call_lower (py_or (get msg ''subject'') (JStr '''')) = Inr (lower s)"
    using assms(1) by (rule subject_lowered)
  then show ?thesis
    using assms(2) by (auto simp: classify_def FILED_KEYWORDS_def)
qed

theorem classify_filed_priority_witness:
  "classify [''subject'' \<mapsto> JStr ''Claim: Auto Policy Renewal'', ''hasAttachments'' \<mapsto> JBool True]
     = Inr ''filed''"
proof -
  have low: "lower ''Claim: Auto Policy Renewal'' = ''claim: auto policy renewal''"
    by code_simp
  have kw: "sublist ''policy'' ''claim: auto policy renewal''"
    by code_simp
  show ?thesis
    by (rule classify_filed_priority [where s = "''Claim: Auto Policy Renewal''"])
       (simp_all add: low kw)
qed

text \<open>
  C2. When the lower-cased subject contains none of the four keywords, the message is
  \<open>triage\<close> exactly when the attachment flag is truthy or the lower-cased subject contains
  \<open>claim\<close>, and \<open>skipped\<close> otherwise. A subject that is missing or \<^verbatim>\<open>None\<close> counts as the
  empty string.
\<close>

theorem classify_triage_or_skipped:
  assumes "msg ''subject'' = Some (JStr s)
           \<or> ((msg ''subject'' = None \<or> msg ''subject'' = Some JNull) \<and> s = '''')"
    and "\<not> sublist ''quote'' (lower s)" and "\<not> sublist ''policy'' (lower s)"
    and "\<not> sublist ''binder'' (lower s)" and "\<not> sublist ''endorsement'' (lower s)"
  shows "(classify msg = Inr ''triage''
            \<longleftrightarrow> truthy (get msg ''hasAttachments'') \<or> sublist ''claim'' (lower s))
       \<and> (classify msg = Inr ''skipped''
            \<longleftrightarrow> \<not> (truthy (get msg ''hasAttachments'') \<or> sublist ''claim'' (lower s)))"
proof -
  have "call_lower (py_or (get msg ''subject'') (JStr '''')) = Inr (lower s)"
    using assms(1) subject_lowered [of msg s] subject_absent [of msg] by auto
  then show ?thesis
    using assms(2-5) by (auto simp: classify_def FILED_KEYWORDS_def)
qed

theorem classify_triage_or_skipped_witness:
  "classify [''hasAttachments'' \<mapsto> JBool True] = Inr ''triage''
   \<and> classify [''subject'' \<mapsto> JStr ''Claim Documents''] = Inr ''triage''
   \<and> classify [''subject'' \<mapsto> JNull, ''hasAttachments'' \<mapsto> JBool False] = Inr ''skipped''"
proof -
  have low: "lower ''Claim Documents'' = ''claim documents''"
    by code_simp
  have no: "\<not> sublist ''quote'' ''claim documents''" "\<not> sublist ''policy'' ''claim documents''"
    "\<not> sublist ''binder'' ''claim documents''" "\<not> sublist ''endorsement'' ''claim documents''"
    by code_simp+
  have yes: "sublist ''claim'' ''claim documents''"
    by code_simp
  have a: "classify [''hasAttachments'' \<mapsto> JBool True] = Inr ''triage''"
    using classify_triage_or_skipped [of "[''hasAttachments'' \<mapsto> JBool True]" "''''"]
    by (simp add: get_def)
  have b: "classify [''subject'' \<mapsto> JStr ''Claim Documents''] = Inr ''triage''"
    using classify_triage_or_skipped
      [of "[''subject'' \<mapsto> JStr ''Claim Documents'']" "''Claim Documents''"]
    by (simp add: low no yes)
  have c: "classify [''subject'' \<mapsto> JNull, ''hasAttachments'' \<mapsto> JBool False] = Inr ''skipped''"
    using classify_triage_or_skipped
      [of "[''subject'' \<mapsto> JNull, ''hasAttachments'' \<mapsto> JBool False]" "''''"]
    by (simp add: get_def)
  show ?thesis using a b c by simp
qed

text \<open>
  C10. Two messages with the same \<open>subject\<close> entry and the same \<open>hasAttachments\<close> entry get
  the same result, whatever else they hold (sender, received time, conversation id).
\<close>

theorem classify_depends_on_two_fields:
  assumes "m1 ''subject'' = m2 ''subject''"
    and "m1 ''hasAttachments'' = m2 ''hasAttachments''"
  shows "classify m1 = classify m2"
  unfolding classify_def get_def assms by (rule refl)

theorem classify_depends_on_two_fields_witness:
  "classify [''subject'' \<mapsto> JStr ''Lunch'', ''from'' \<mapsto> JStr ''a@example.com'',
             ''receivedDateTime'' \<mapsto> JStr ''2024-01-01T09:00:00Z'']
   = classify [''subject'' \<mapsto> JStr ''Lunch'', ''conversationId'' \<mapsto> JStr ''c1'']"
  by (rule classify_depends_on_two_fields) simp_all

section \<open>Properties of the folder lookup\<close>

lemma replace_ne_char:
  "replace_ne [a] new s = concat (map (\<lambda>c. if c = a then new else [c]) s)"
  by (induction s) auto

lemma replace_char:
  "replace [a] new s = concat (map (\<lambda>c. if c = a then new else [c]) s)"
  by (simp add: replace_def replace_ne_char)

lemma sent_graph_get:
  "sent (snd (graph_get api path hdrs ps w))
     = sent w @ [\<lparr>meth = ''GET'', url = GRAPH @ path, headers = hdrs, params = ps, payload = None\<rparr>]"
  by (simp add: graph_get_def send_def split: sum.splits)

text \<open>
  C4. Both lookups send exactly one request, and its filter holds the display name with
  every apostrophe doubled, between apostrophes.
\<close>

theorem folder_filter_escapes_quotes:
  "sent (snd (graph_find_mail_folder_id api hdrs name w))
     = sent w @ [\<lparr>meth = ''GET'', url = GRAPH @ ''/me/mailFolders'', headers = hdrs,
          params = [(''$filter'', JStr (''displayName eq '' @ [SQ]
                        @ concat (map (\<lambda>c. if c = SQ then [SQ, SQ] else [c]) name) @ [SQ])),
                    (''$top'', JNum 10)],
          payload = None\<rparr>]
   \<and> sent (snd (find_mail_folder_id api hdrs name w))
     = sent (snd (graph_find_mail_folder_id api hdrs name w))"
proof -
  let ?safe = "concat (map (\<lambda>c. if c = SQ then [SQ, SQ] else [c]) name)"
  have g: "sent (snd (graph_find_mail_folder_id api hdrs name w))
             = sent (snd (graph_get api ''/me/mailFolders'' hdrs (folder_filter ?safe) w))"
    by (simp add: graph_find_mail_folder_id_def replace_char Let_def
        split: prod.splits sum.splits)
  have s: "sent (snd (find_mail_folder_id api hdrs name w))
             = sent w @ [\<lparr>meth = ''GET'', url = GRAPH @ ''/me/mailFolders'', headers = hdrs,
                  params = folder_filter ?safe, payload = None\<rparr>]"
    by (simp add: find_mail_folder_id_def replace_char send_def Let_def split: sum.splits)
  show ?thesis
    by (simp add: g s sent_graph_get folder_filter_def)
qed

lemma graph_find_result:
  assumes "api (sent w) (folder_request hdrs name) = Inr r" "ok r"
  shows "fst (graph_find_mail_folder_id api hdrs name w)
           = and_then (and_then (rjson r) (\<lambda>data. get_default data ''value'' (JArr []))) first_id"
  using assms
  by (simp add: graph_find_mail_folder_id_def graph_get_def send_def folder_request_def
      and_then_def split: sum.splits)

lemma find_result:
  assumes "api (sent w) (folder_request hdrs name) = Inr r" "ok r"
  shows "fst (find_mail_folder_id api hdrs name w)
           = and_then (and_then (rjson r) (\<lambda>data. get_default data ''value'' (JArr []))) first_id"
  using assms
  by (simp add: find_mail_folder_id_def send_def folder_request_def and_then_def
      split: sum.splits)

text \<open>
  C5. When the list request succeeds with an object as body: an empty or missing result
  list gives \<^verbatim>\<open>None\<close>, as a value; otherwise the \<open>id\<close> of the first result is returned, in
  the order the remote gave. This holds for both lookups.
\<close>

theorem folder_lookup_first_or_none:
  assumes "api (sent w) (folder_request hdrs name) = Inr r"
    and "ok r"
    and "rjson r = Inr (JObj kvs)"
  shows "(map_of kvs ''value'' = None \<or> map_of kvs ''value'' = Some (JArr [])
            \<longrightarrow> fst (graph_find_mail_folder_id api hdrs name w) = Inr JNull
              \<and> fst (find_mail_folder_id api hdrs name w) = Inr JNull)
       \<and> (map_of kvs ''value'' = Some (JArr (JObj fs # others)) \<and> map_of fs ''id'' = Some i
            \<longrightarrow> fst (graph_find_mail_folder_id api hdrs name w) = Inr i
              \<and> fst (find_mail_folder_id api hdrs name w) = Inr i)"
proof -
  have g: "fst (graph_find_mail_folder_id api hdrs name w)
             = and_then (get_default (JObj kvs) ''value'' (JArr [])) first_id"
    using graph_find_result [of api w hdrs name r] assms by (simp add: and_then_def)
  have s: "fst (find_mail_folder_id api hdrs name w)
             = and_then (get_default (JObj kvs) ''value'' (JArr [])) first_id"
    using find_result [of api w hdrs name r] assms by (simp add: and_then_def)
  show ?thesis
    by (auto simp: g s and_then_def first_id_def)
qed

theorem folder_lookup_first_or_none_witness:
  "fst (graph_find_mail_folder_id
          (\<lambda>h q. Inr \<lparr>ok = True, status_code = 200, rtext = '''',
             rjson = Inr (JObj [(''value'',
                       JArr [JObj [(''id'', JStr ''A'')], JObj [(''id'', JStr ''B'')]])])\<rparr>)
          [] ''Inbox'' \<lparr>sent = [], out = []\<rparr>) = Inr (JStr ''A'')
   \<and> fst (find_mail_folder_id
          (\<lambda>h q. Inr \<lparr>ok = True, status_code = 200, rtext = '''',
             rjson = Inr (JObj [(''value'', JArr [])])\<rparr>)
          [] ''Inbox'' \<lparr>sent = [], out = []\<rparr>) = Inr JNull"
  using folder_lookup_first_or_none
    [of "\<lambda>h q. Inr \<lparr>ok = True, status_code = 200, rtext = '''',
             rjson = Inr (JObj [(''value'',
                       JArr [JObj [(''id'', JStr ''A'')], JObj [(''id'', JStr ''B'')]])])\<rparr>"
        "\<lparr>sent = [], out = []\<rparr>" "[]" "''Inbox''"
        "\<lparr>ok = True, status_code = 200, rtext = '''',
             rjson = Inr (JObj [(''value'',
                       JArr [JObj [(''id'', JStr ''A'')], JObj [(''id'', JStr ''B'')]])])\<rparr>"
        "[(''value'', JArr [JObj [(''id'', JStr ''A'')], JObj [(''id'', JStr ''B'')]])]"
        "[(''id'', JStr ''A'')]" "[JObj [(''id'', JStr ''B'')]]" "JStr ''A''"]
    folder_lookup_first_or_none
    [of "\<lambda>h q. Inr \<lparr>ok = True, status_code = 200, rtext = '''',
             rjson = Inr (JObj [(''value'', JArr [])])\<rparr>"
        "\<lparr>sent = [], out = []\<rparr>" "[]" "''Inbox''"
        "\<lparr>ok = True, status_code = 200, rtext = '''',
             rjson = Inr (JObj [(''value'', JArr [])])\<rparr>"
        "[(''value'', JArr [])]"]
  by simp

section \<open>Properties of the seeder\<close>











section \<open>Properties of the dashboard\<close>

lemma html_escape_chars: "html_escape s = concat (map escape_char s)"
  by (induction s) (auto simp: html_escape_def replace_char escape_char_def SQ_def)

lemma tag_start_append: "tag_start cs \<Longrightarrow> tag_start (cs @ b)"
  by (cases cs rule: tag_start.cases) auto

lemma tags_fixed_append: "tags_fixed a \<Longrightarrow> tags_fixed b \<Longrightarrow> tags_fixed (a @ b)"
  by (induction a) (auto simp: tag_start_append)

lemma tags_fixed_no_lt: "CHR ''<'' \<notin> set s \<Longrightarrow> tags_fixed s"
  by (induction s) auto

lemma escape_no_lt: "CHR ''<'' \<notin> set (html_escape s)"
  by (induction s) (auto simp: html_escape_chars escape_char_def)

lemma tags_fixed_no_script: "tags_fixed s \<Longrightarrow> \<not> sublist ''<script>'' s"
proof (induction s)
  case Nil
  show ?case by simp
next
  case (Cons c cs)
  then have rest: "\<not> sublist ''<script>'' cs" by simp
  have "\<not> prefix ''<script>'' (c # cs)"
  proof
    assume "prefix ''<script>'' (c # cs)"
    then obtain r where "c # cs = ''<script>'' @ r" by (auto simp: prefix_def)
    then have "c = CHR ''<''" and "cs = ''script>'' @ r" by simp_all
    with Cons.prems show False by simp
  qed
  with rest show ?case by (simp add: sublist_Cons_right)
qed

lemma tags_fixed_table_row:
  assumes "tags_fixed a" "tags_fixed b" "tags_fixed c" "tags_fixed d"
  shows "tags_fixed (table_row a b c d)"
  unfolding table_row_def
  by (intro tags_fixed_append assms) simp_all

lemma html_escape_escaped: "html_escape s = escaped s"
  by (simp add: html_escape_chars escaped_def)

lemma call_html_escape_Inr: "call_html_escape v = Inr t \<Longrightarrow> t = escaped (text_of v)"
  by (cases v) (auto simp: html_escape_escaped)

lemma row_html_rendered:
  assumes "row_html fd m = Inr r"
  shows "r = rendered_row fd m"
  using assms
  by (auto simp: row_html_def and_then_def rendered_row_def label_of_def dict_item_def get_def
      html_escape_escaped dest!: call_html_escape_Inr split: sum.splits option.splits)

lemma rows_html_rendered:
  "rows_html fd ms = Inr rs \<Longrightarrow> rs = map (rendered_row fd) ms"
proof (induction ms arbitrary: rs)
  case Nil
  then show ?case by simp
next
  case (Cons m ms)
  then show ?case
    by (auto simp: and_then_def dest: row_html_rendered split: sum.splits)
qed

lemma escaped_no_markup:
  "set (escaped s) \<inter> {CHR ''<'', CHR ''>'', CHR 0x22, SQ} = {}"
  by (induction s) (auto simp: escaped_def escape_char_def SQ_def)

lemma tags_fixed_escaped: "tags_fixed (escaped s)"
  using escaped_no_markup [of s] by (intro tags_fixed_no_lt) auto

lemma tags_fixed_rendered_row: "tags_fixed (rendered_row fd m)"
  unfolding rendered_row_def by (intro tags_fixed_table_row tags_fixed_escaped)

lemma tags_fixed_join:
  "\<forall>r \<in> set rs. tags_fixed r \<Longrightarrow> tags_fixed (join [CHR 0x0A] rs)"
  by (induction "[CHR 0x0A]" rs rule: join.induct) (auto intro!: tags_fixed_append)

text \<open>
  C7. When the rows are rendered, every row is the fixed markup around the escaped status
  label, subject, folder name and timestamp; the rows contain no \<open><script>\<close>, and an
  escaped text holds none of the characters \<open><\<close>, \<open>>\<close>, the double quote and the
  apostrophe.
\<close>

theorem rendered_text_is_escaped:
  assumes "rows_block fd messages = Inr block"
  shows "block = (if messages = [] then NO_EMAILS
                  else join [CHR 0x0A] (map (rendered_row fd) messages))
       \<and> \<not> sublist ''<script>'' block
       \<and> (\<forall>s. set (escaped s) \<inter> {CHR ''<'', CHR ''>'', CHR 0x22, SQ} = {})"
proof -
  obtain rs where rs: "rows_html fd messages = Inr rs"
    and block: "block = (if rs = [] then NO_EMAILS else join [CHR 0x0A] rs)"
    using assms by (auto simp: rows_block_def and_then_def split: sum.splits)
  have eq: "rs = map (rendered_row fd) messages"
    using rs by (rule rows_html_rendered)
  have shape: "block = (if messages = [] then NO_EMAILS
                  else join [CHR 0x0A] (map (rendered_row fd) messages))"
    using block eq by simp
  have "tags_fixed NO_EMAILS"
    by (simp add: NO_EMAILS_def)
  moreover have "tags_fixed (join [CHR 0x0A] (map (rendered_row fd) messages))"
    by (rule tags_fixed_join) (simp add: tags_fixed_rendered_row)
  ultimately have "tags_fixed block"
    using shape by simp
  then have "\<not> sublist ''<script>'' block"
    by (rule tags_fixed_no_script)
  with shape escaped_no_markup show ?thesis by blast
qed

theorem rendered_text_is_escaped_witness:
  "rows_block ''DEMO''
     [[''status'' \<mapsto> JStr ''triage'', ''subject'' \<mapsto> JStr ''<script>'',
       ''timestamp'' \<mapsto> JStr ''2024-01-01 09:00 UTC'']]
   = Inr (table_row ''Triage'' ''&lt;script&gt;'' ''DEMO'' ''2024-01-01 09:00 UTC'')
   \<and> \<not> sublist ''<script>''
        (table_row ''Triage'' ''&lt;script&gt;'' ''DEMO'' ''2024-01-01 09:00 UTC'')"
proof -
  have run: "rows_block ''DEMO''
     [[''status'' \<mapsto> JStr ''triage'', ''subject'' \<mapsto> JStr ''<script>'',
       ''timestamp'' \<mapsto> JStr ''2024-01-01 09:00 UTC'']]
   = Inr (table_row ''Triage'' ''&lt;script&gt;'' ''DEMO'' ''2024-01-01 09:00 UTC'')"
    by (simp add: rows_block_def and_then_def row_html_def dict_item_def get_or_def
        html_escape_def replace_def SQ_def)
  have "\<not> sublist ''<script>''
        (table_row ''Triage'' ''&lt;script&gt;'' ''DEMO'' ''2024-01-01 09:00 UTC'')"
    using rendered_text_is_escaped [OF run] by blast
  with run show ?thesis by (rule conjI)
qed

lemma digit_char: "n < 10 \<Longrightarrow> is_digit (DIGITS ! n)"
  unfolding is_digit_def by (rule nth_mem) (simp add: DIGITS_def)

lemma str_nat_digits: "list_all is_digit (str_nat n) \<and> str_nat n \<noteq> []"
proof (induction n rule: str_nat.induct)
  case (1 n)
  show ?case
  proof (cases "n < 10")
    case True
    then show ?thesis by (subst str_nat.simps, subst str_nat.simps) (simp add: digit_char)
  next
    case False
    then show ?thesis
      using 1 by (subst str_nat.simps, subst str_nat.simps) (simp add: digit_char)
  qed
qed

lemma zero_digit: "is_digit (CHR ''0'')"
  by (simp add: is_digit_def DIGITS_def)

lemma pad_digits: "list_all is_digit (pad k n)"
  using str_nat_digits [of n] by (auto simp: pad_def list_all_iff zero_digit)

lemma pad_not_Nil: "pad k n \<noteq> []"
  by (simp add: pad_def str_nat_digits)


lemma split_on_not_Nil: "split_on old s \<noteq> []"
  by (induction old s rule: split_on.induct) (auto split: list.splits)

lemma join_Cons': "join sep ((c # p) # ps) = c # join sep (p # ps)"
  by (cases ps) auto

lemma join_Nil_Cons: "ps \<noteq> [] \<Longrightarrow> join sep ([] # ps) = sep @ join sep ps"
  by (cases ps) auto

lemma replace_ne_join_split: "replace_ne old new s = join new (split_on old s)"
proof (induction old new s rule: replace_ne.induct)
  case (1 old new)
  show ?case by simp
next
  case (2 old new c cs)
  show ?case
  proof (cases "old \<noteq> [] \<and> prefix old (c # cs)")
    case True
    then show ?thesis
      using 2 by (simp add: join_Nil_Cons split_on_not_Nil)
  next
    case False
    obtain p ps where sp: "split_on old cs = p # ps"
      using split_on_not_Nil [of old cs] by (cases "split_on old cs") auto
    show ?thesis
      using False 2 sp by (auto simp: join_Cons')
  qed
qed

lemma prefix_blocked:
  assumes "c \<notin> set old" "prefix old (a @ c # b)"
  shows "prefix old a"
proof -
  from assms(2) obtain r where r: "a @ c # b = old @ r" by (auto simp: prefix_def)
  then show ?thesis
  proof (cases "length old \<le> length a")
    case True
    with r have "old = take (length old) a"
      by (metis append_eq_conv_conj take_append diff_is_0_eq take_0 append_Nil2)
    then show ?thesis by (metis take_is_prefix)
  next
    case False
    then have "length a < length old" by simp
    with r have "old ! length a = c"
      by (metis nth_append nth_append_length)
    with \<open>length a < length old\<close> assms(1) show ?thesis
      by (metis nth_mem)
  qed
qed

lemma replace_ne_blocked:
  "c \<notin> set old \<Longrightarrow>
   replace_ne old new (a @ c # b) = replace_ne old new a @ c # replace_ne old new b"
proof (induction old new a rule: replace_ne.induct)
  case (1 old new)
  then have "\<not> prefix old (c # b) \<or> old = []"
    by (cases old) auto
  then show ?case by auto
next
  case (2 old new x xs)
  have same: "prefix old (x # xs @ c # b) \<longleftrightarrow> prefix old (x # xs)"
    using prefix_blocked [OF "2.prems", of "x # xs" b] prefix_prefix [of old "x # xs" "c # b"]
    by auto
  show ?case
  proof (cases "old \<noteq> [] \<and> prefix old (x # xs)")
    case True
    then have "length old \<le> Suc (length xs)"
      by (auto dest: prefix_length_le)
    then have "drop (length old - 1) (xs @ c # b) = drop (length old - 1) xs @ c # b"
      by simp
    with True same "2.IH"(1) "2.prems" show ?thesis by simp
  next
    case False
    with same "2.IH"(2) "2.prems" show ?thesis by auto
  qed
qed

lemma replace_ne_untouched:
  "old \<noteq> [] \<Longrightarrow> hd old \<notin> set m \<Longrightarrow> replace_ne old new (m @ b) = m @ replace_ne old new b"
proof (induction m)
  case Nil
  show ?case by simp
next
  case (Cons x m)
  then have "\<not> prefix old (x # m @ b)"
    by (cases old) auto
  with Cons show ?case by simp
qed

lemma replace_ne_inert:
  assumes "inert old t"
  shows "replace_ne old new (a @ t @ b) = replace_ne old new a @ t @ replace_ne old new b"
proof -
  from assms obtain c m where t: "t = c # m" and c: "c \<notin> set old"
    and h: "hd old \<notin> set (c # m)" and ne: "old \<noteq> []" and l: "last (c # m) \<notin> set old"
    by (cases t) (auto simp: inert_def)
  have 1: "replace_ne old new (a @ t @ b) = replace_ne old new a @ c # replace_ne old new (m @ b)"
    using replace_ne_blocked [OF c, of new a "m @ b"] by (simp add: t)
  have 2: "replace_ne old new (m @ b) = m @ replace_ne old new b"
    using replace_ne_untouched [OF ne, of m new b] h by simp
  show ?thesis using 1 2 unfolding t by simp
qed

lemma replace_ne_join_inert:
  "inert old t \<Longrightarrow> replace_ne old new (join t ps) = join t (map (replace_ne old new) ps)"
proof (induction t ps rule: join.induct)
  case (1 sep)
  show ?case by simp
next
  case (2 sep p)
  show ?case by simp
next
  case (3 sep p q ps)
  have "replace_ne old new (p @ sep @ join sep (q # ps))
          = replace_ne old new p @ sep @ replace_ne old new (join sep (q # ps))"
    using "3.prems" by (rule replace_ne_inert)
  with 3 show ?case by simp
qed

lemma digits_no_lt: "list_all is_digit s \<Longrightarrow> CHR ''<'' \<notin> set s"
proof
  assume a: "list_all is_digit s" and b: "CHR ''<'' \<in> set s"
  then have "is_digit (CHR ''<'')" by (simp add: list_all_iff)
  then show False by (simp add: is_digit_def DIGITS_def)
qed

lemma hd_pad_digit: "is_digit (hd (pad k n))"
proof -
  have "hd (pad k n) \<in> set (pad k n)"
    by (rule hd_in_set) (rule pad_not_Nil)
  with pad_digits [of k n] show ?thesis
    by (simp add: list_all_iff)
qed


lemma digit_not_in_marker: "is_digit c \<Longrightarrow> c \<notin> set ''<!-- REPORT_DATA -->''"
  by (auto simp: is_digit_def DIGITS_def)

lemma run_time_inert: "inert ''<!-- REPORT_DATA -->'' (strftime_run_time now)"
proof -
  have h: "hd (strftime_run_time now) = hd (pad 4 (year now))"
    by (simp add: strftime_run_time_def pad_not_Nil)
  have "hd (strftime_run_time now) \<notin> set ''<!-- REPORT_DATA -->''"
    unfolding h by (rule digit_not_in_marker) (rule hd_pad_digit)
  moreover have "last (strftime_run_time now) = CHR ''C''"
    by (simp add: strftime_run_time_def)
  moreover have "CHR ''<'' \<notin> set (strftime_run_time now)"
    using digits_no_lt [OF pad_digits]
    by (simp add: strftime_run_time_def)
  ultimately show ?thesis
    by (simp add: inert_def strftime_run_time_def)
qed

text \<open>
  C9. Without a template the renderer fails, whatever the clock shows. With one, the page
  written is the pieces of the template between the \<open>{RUN_TIME}\<close> markers, each with the
  rows put in, joined by the rendered clock reading: two runs on the same rows and template
  differ in nothing but that reading.
\<close>

theorem render_same_but_for_run_time:
  "render_tailwind_dashboard tf None now messages fd
     = Inl (FileNotFoundError (''Template not found: '' @ tf))
   \<and> render_tailwind_dashboard tf (Some tpl) now messages fd
     = and_then (rows_block fd messages) (\<lambda>block.
         Inr (join (strftime_run_time now)
                (map (replace ''<!-- REPORT_DATA -->'' block) (split_on ''{RUN_TIME}'' tpl))))"
proof -
  have "replace ''<!-- REPORT_DATA -->'' block (replace ''{RUN_TIME}'' (strftime_run_time now) tpl)
      = join (strftime_run_time now)
          (map (replace ''<!-- REPORT_DATA -->'' block) (split_on ''{RUN_TIME}'' tpl))" for block
  proof -
    have r: "replace ''<!-- REPORT_DATA -->'' block = replace_ne ''<!-- REPORT_DATA -->'' block"
      by (rule ext) (simp add: replace_def)
    have "replace ''{RUN_TIME}'' (strftime_run_time now) tpl
            = join (strftime_run_time now) (split_on ''{RUN_TIME}'' tpl)"
      by (simp add: replace_def replace_ne_join_split)
    then show ?thesis
      unfolding r by (simp only: replace_ne_join_inert [OF run_time_inert])
  qed
  then show ?thesis
    by (simp add: render_tailwind_dashboard_def)
qed

section \<open>Properties of the token acquisition\<close>

text \<open>
  C3. Against an \<^verbatim>\<open>msal\<close> that refuses the device flow at both authorities, the copy of
  the procedure in create\_test\_emails.py fails with a message that names the last failure
  cause and gives no remediation hint, while the procedure of graph\_demo.py names the same
  cause and adds the fix checklist.
\<close>

theorem seeder_token_failure_lacks_hints:
  "fst (seeder_acquire_token_with_diagnostics (\<lambda>authority. refusing_app) \<lparr>sent = [], out = []\<rparr>)
     = Inl (RuntimeError ''Failed to acquire token. Details: invalid_client: not a public client'')
   \<and> fst (acquire_token_with_diagnostics (\<lambda>authority. refusing_app) \<lparr>sent = [], out = []\<rparr>)
     = Inl (RuntimeError
         (''Failed to create/complete device flow. ''
          @ ''Details: invalid_client: not a public client'' @ LF @ LF
          @ ''Fix checklist:'' @ LF
          @ ''  1) Azure App Registration > Authentication: 'Allow public client flows' = Yes'' @ LF
          @ ''  2) Supported account types include Personal Microsoft accounts (MSA)'' @ LF
          @ ''  3) CLIENT_ID matches the configured app'' @ LF
          @ ''  4) SCOPES are delegated Graph scopes only: ['User.Read', 'Mail.ReadWrite']''))"
  by (simp add: seeder_acquire_token_with_diagnostics_def acquire_token_with_diagnostics_def
      AUTHORITIES_def failure_message_def try_authority_def silent_def device_flow_def
      refusing_app_def Let_def)

section \<open>Properties of the timestamp display\<close>






















end
